theory Spec2Isabelle
  imports Complex_Main "HOL-Library.Word"
begin

unbundle bit_operations_syntax

section \<open>The angle compensator of sick\_scan\<close>

text \<open>
  A shallow embedding of \<^verbatim>\<open>driver/src/helper/angle_compensator.cpp\<close>.

  \<^item> The member fields of \<^verbatim>\<open>AngleCompensator\<close> are a record that every function takes
    and returns. A \<^verbatim>\<open>double\<close> is an ideal real number: rounding is not modelled.
  \<^item> The C++ exceptions that \<^verbatim>\<open>std::stoul\<close> throws are values of the type \<open>error\<close>;
    a call that throws leaves the object as it was.
  \<^item> \<^verbatim>\<open>unsigned long\<close> and \<^verbatim>\<open>long\<close> have 64 bits (LP64, the Linux targets of the driver).
  \<^item> The three locals \<^verbatim>\<open>ampl10000th\<close>, \<^verbatim>\<open>phase10000th\<close>, \<^verbatim>\<open>offset10000th\<close> of
    \<^verbatim>\<open>parseAsciiReply\<close> are declared without initialiser. What they hold when they are
    read before being assigned is a parameter \<open>uninit\<close> of the model.
\<close>

subsection \<open>State\<close>

record AngleCompensator =
  amplCorr :: real
  phaseCorrInDeg :: real
  offsetCorrInDeg :: real
  phaseCorrInRad :: real
  offsetCorrInRad :: real

text \<open>The macro \<^verbatim>\<open>M_PI\<close> of the C library's math header stands for the number \<open>\<pi>\<close>.\<close>

definition M_PI :: real where
  "M_PI = pi"

subsection \<open>Compensation of a raw angle\<close>

text \<open>
  \<^verbatim>\<open>double deg2radFactor = 0.01745329252;\<close> is a local of both functions, written as a
  decimal literal in the source.
\<close>

definition compensateAngleInRad :: "AngleCompensator \<Rightarrow> real \<Rightarrow> real" where
  "compensateAngleInRad ac angleInRad =
     (let deg2radFactor = 0.01745329252;
          angleCompInRad = angleInRad
             + deg2radFactor * amplCorr ac * sin (angleInRad + phaseCorrInRad ac)
             + offsetCorrInRad ac
      in angleCompInRad)"

definition compensateAngleInDeg :: "AngleCompensator \<Rightarrow> real \<Rightarrow> real" where
  "compensateAngleInDeg ac angleInDeg =
     (let deg2radFactor = 0.01745329252;
          angleRawInRad = deg2radFactor * angleInDeg;
          phaseCorrInRad = deg2radFactor * phaseCorrInDeg ac;
          angleCompInDeg = angleInDeg + amplCorr ac * sin (angleRawInRad + phaseCorrInRad)
             + offsetCorrInDeg ac
      in angleCompInDeg)"

subsection \<open>The C library's number parsers\<close>

type_synonym ulong = "64 word"
type_synonym byte = "8 word"

datatype error = invalid_argument | out_of_range

definition ULONG_MAX :: nat where
  "ULONG_MAX = 2 ^ 64 - 1"

definition LONG_MAX :: int where
  "LONG_MAX = 2 ^ 63 - 1"

definition LONG_MIN :: int where
  "LONG_MIN = - (2 ^ 63)"

text \<open>\<^verbatim>\<open>isspace\<close> in the C locale: space, \<^verbatim>\<open>\t \n \v \f \r\<close>.\<close>

definition isspace :: "char \<Rightarrow> bool" where
  "isspace c \<longleftrightarrow> c = CHR '' '' \<or> (9 \<le> (of_char c :: nat) \<and> (of_char c :: nat) \<le> 13)"

text \<open>The value of a character as a digit, for bases up to 16.\<close>

definition digit_val :: "char \<Rightarrow> nat option" where
  "digit_val c =
     (let n = (of_char c :: nat) in
      if 48 \<le> n \<and> n \<le> 57 then Some (n - 48)
      else if 65 \<le> n \<and> n \<le> 70 then Some (n - 55)
      else if 97 \<le> n \<and> n \<le> 102 then Some (n - 87)
      else None)"

definition is_digit :: "nat \<Rightarrow> char \<Rightarrow> bool" where
  "is_digit base c = (case digit_val c of None \<Rightarrow> False | Some d \<Rightarrow> d < base)"

definition digits_value :: "nat \<Rightarrow> string \<Rightarrow> nat" where
  "digits_value base ds = foldl (\<lambda>acc c. acc * base + the (digit_val c)) 0 ds"

text \<open>An optional sign in front of the digits: whether it was a minus, and the rest.\<close>

definition take_sign :: "string \<Rightarrow> bool \<times> string" where
  "take_sign s =
     (case s of
        [] \<Rightarrow> (False, [])
      | c # cs \<Rightarrow> if c = CHR ''-'' then (True, cs)
                  else if c = CHR ''+'' then (False, cs)
                  else (False, s))"

text \<open>In base 16 the digits may follow \<^verbatim>\<open>0x\<close> or \<^verbatim>\<open>0X\<close>.\<close>

definition skip_0x :: "nat \<Rightarrow> string \<Rightarrow> string" where
  "skip_0x base s =
     (case s of
        a # b # c # cs \<Rightarrow>
          if base = 16 \<and> a = CHR ''0'' \<and> (b = CHR ''x'' \<or> b = CHR ''X'') \<and> is_digit 16 c
          then c # cs else s
      | _ \<Rightarrow> s)"

text \<open>
  \<^verbatim>\<open>std::stoul(str, nullptr, base)\<close>: \<^verbatim>\<open>strtoul\<close> on the string (white space, an optional
  sign, the longest run of digits; a minus sign negates in the unsigned type), throwing
  \<^verbatim>\<open>std::invalid_argument\<close> when there is no digit and \<^verbatim>\<open>std::out_of_range\<close> when the
  digits exceed \<^verbatim>\<open>ULONG_MAX\<close>.
\<close>

definition stoul :: "string \<Rightarrow> nat \<Rightarrow> error + ulong" where
  "stoul str base =
     (let (neg, s) = take_sign (dropWhile isspace str);
          ds = takeWhile (is_digit base) (skip_0x base s)
      in if ds = [] then Inl invalid_argument
         else let v = digits_value base ds
              in if v > ULONG_MAX then Inl out_of_range
                 else Inr (if neg then - of_nat v else of_nat v))"

text \<open>
  \<^verbatim>\<open>sscanf(str, "%ld", &x)\<close>: white space, an optional sign, decimal digits. \<open>None\<close> is a
  matching failure, which stores nothing. The value is converted as \<^verbatim>\<open>strtol\<close> does, which
  the GNU C library clamps to the range of \<^verbatim>\<open>long\<close>; the source stores it through a pointer
  to \<^verbatim>\<open>unsigned long\<close>, which keeps the bit pattern.
\<close>

definition sscanf_ld :: "string \<Rightarrow> ulong option" where
  "sscanf_ld str =
     (let (neg, s) = take_sign (dropWhile isspace str);
          ds = takeWhile (is_digit 10) s
      in if ds = [] then None
         else let v = int (digits_value 10 ds);
                  r = (if neg then - v else v)
              in Some (of_int (max LONG_MIN (min LONG_MAX r))))"

subsection \<open>Splitting the reply at spaces\<close>

text \<open>
  \<^verbatim>\<open>while (std::getline(ss, token, delim)) cont.push_back(token);\<close> The first argument is the
  token read so far. At the end of the input \<^verbatim>\<open>getline\<close> succeeds when it has extracted at
  least one character, so an empty token is pushed only in front of a delimiter.
\<close>

fun getline_loop :: "string \<Rightarrow> string \<Rightarrow> string list" where
  "getline_loop token [] = (if token = [] then [] else [token])"
| "getline_loop token (c # cs) =
     (if c = CHR '' '' then token # getline_loop [] cs
      else getline_loop (token @ [c]) cs)"

text \<open>A \<^verbatim>\<open>const char *\<close> ends at its first NUL character.\<close>

definition c_str :: "string \<Rightarrow> string" where
  "c_str s = takeWhile (\<lambda>c. c \<noteq> CHR 0x00) s"

subsection \<open>\<^verbatim>\<open>parseAsciiReply\<close>\<close>

record CalibrationFrame =
  ampl10000th :: "16 word"
  phase10000th :: "32 word"
  offset10000th :: "16 word"

text \<open>
  The body of the loop over \<open>i\<close>: \<^verbatim>\<open>cont[2+i][0]\<close> of an empty token is the terminating
  NUL; \<^verbatim>\<open>helperArr[i]\<close> starts as 0 and keeps that value when \<^verbatim>\<open>sscanf\<close> matches nothing.
\<close>

definition parse_value :: "string \<Rightarrow> error + ulong" where
  "parse_value tok =
     (let ch = (case tok of [] \<Rightarrow> CHR 0x00 | c # _ \<Rightarrow> c)
      in if ch = CHR ''+'' \<or> ch = CHR ''-''
         then Inr (case sscanf_ld tok of None \<Rightarrow> 0 | Some v \<Rightarrow> v)
         else stoul tok 16)"

text \<open>The block guarded by \<^verbatim>\<open>cont.size() == 5\<close>; the first exception ends it.\<close>

definition parse_frame :: "string list \<Rightarrow> error + CalibrationFrame" where
  "parse_frame cont =
     (case parse_value (cont ! 2) of
        Inl e \<Rightarrow> Inl e
      | Inr h0 \<Rightarrow>
     (case parse_value (cont ! 3) of
        Inl e \<Rightarrow> Inl e
      | Inr h1 \<Rightarrow>
     (case parse_value (cont ! 4) of
        Inl e \<Rightarrow> Inl e
      | Inr h2 \<Rightarrow>
          Inr \<lparr> ampl10000th = ucast (0xFFFF AND h0),
                phase10000th = ucast (0xFFFFFFFF AND h1),
                offset10000th = ucast (0xFFFF AND h2) \<rparr>)))"

text \<open>The five assignments to the member fields that end the function.\<close>

definition store_frame :: "CalibrationFrame \<Rightarrow> AngleCompensator \<Rightarrow> AngleCompensator" where
  "store_frame fr ac =
     (let ac1 = ac\<lparr> amplCorr := 1 / 10000 * real_of_int (sint (ampl10000th fr)) \<rparr>;
          ac2 = ac1\<lparr> phaseCorrInDeg := 1 / 10000 * real_of_int (sint (phase10000th fr)) \<rparr>;
          ac3 = ac2\<lparr> offsetCorrInDeg := 1 / 10000 * real_of_int (sint (offset10000th fr)) \<rparr>;
          ac4 = ac3\<lparr> offsetCorrInRad := offsetCorrInDeg ac3 / 180 * M_PI \<rparr>;
          ac5 = ac4\<lparr> phaseCorrInRad := phaseCorrInDeg ac4 / 180 * M_PI \<rparr>
      in ac5)"

text \<open>
  The result is the exception or the returned \<^verbatim>\<open>retCode\<close>, and the object afterwards.
  (The source also evaluates \<^verbatim>\<open>std::stoul("fffefffe", nullptr, 16)\<close> into an unused local;
  that call cannot throw.)
\<close>

definition parseAsciiReply ::
  "CalibrationFrame \<Rightarrow> string \<Rightarrow> AngleCompensator \<Rightarrow> (error + int) \<times> AngleCompensator" where
  "parseAsciiReply uninit replyStr ac =
     (let retCode = 0;
          cont = getline_loop [] replyStr
      in case (if length cont = 5 then parse_frame cont else Inr uninit) of
           Inl e \<Rightarrow> (Inl e, ac)
         | Inr fr \<Rightarrow> (Inr retCode, store_frame fr ac))"

subsection \<open>\<^verbatim>\<open>parseReply\<close>\<close>

text \<open>\<^verbatim>\<open>sprintf(szTmp, "%02X", replyVec[i])\<close>: two upper-case hexadecimal digits.\<close>

definition hex_digit :: "nat \<Rightarrow> char" where
  "hex_digit n = ''0123456789ABCDEF'' ! (n mod 16)"

definition sprintf_02X :: "byte \<Rightarrow> string" where
  "sprintf_02X b = [hex_digit (unat b div 16), hex_digit (unat b mod 16)]"

text \<open>
  The loop \<^verbatim>\<open>for (int i = 0; i < sLen; i++)\<close> over the bytes still to be read, with the
  current \<open>i\<close> and \<open>relCnt\<close>; the result is what the loop appends to \<^verbatim>\<open>stmp\<close>.
\<close>

fun convert_loop :: "int \<Rightarrow> int \<Rightarrow> int \<Rightarrow> byte list \<Rightarrow> string" where
  "convert_loop offset i relCnt [] = []"
| "convert_loop offset i relCnt (b # bs) =
     (if i < offset
      then char_of (unat b) # convert_loop offset (i + 1) relCnt bs
      else sprintf_02X b
           @ (if relCnt + 1 < 12 \<and> (relCnt + 1) mod 4 = 0 then [CHR '' ''] else [])
           @ convert_loop offset (i + 1) (relCnt + 1) bs)"

text \<open>The string \<^verbatim>\<open>stmp\<close> when \<^verbatim>\<open>parseAsciiReply\<close> is called.\<close>

definition reply_stmp :: "bool \<Rightarrow> byte list \<Rightarrow> string" where
  "reply_stmp isBinary replyVec =
     (if isBinary
      then (let sLen = int (length replyVec);
                offset = sLen - 12
            in convert_loop offset 0 0 replyVec)
      else [])"

definition parseReply ::
  "CalibrationFrame \<Rightarrow> bool \<Rightarrow> byte list \<Rightarrow> AngleCompensator
     \<Rightarrow> (error + int) \<times> AngleCompensator" where
  "parseReply uninit isBinary replyVec ac =
     (let retCode = 0;
          stmp = reply_stmp isBinary replyVec
      in case parseAsciiReply uninit (c_str stmp) ac of
           (Inl e, ac') \<Rightarrow> (Inl e, ac')
         | (Inr r, ac') \<Rightarrow> (Inr retCode, ac'))"

subsection \<open>The frames of \<^verbatim>\<open>testbed\<close>\<close>

definition to_bytes :: "string \<Rightarrow> byte list" where
  "to_bytes s = map (\<lambda>c. of_nat (of_char c)) s"

definition dataArr :: "byte list" where
  "dataArr = [0x00, 0x00, 0x07, 0x65, 0xFF, 0xFC, 0xC9, 0xB9, 0xFF, 0xFF, 0xFF, 0x0B]"

definition zero_frame :: CalibrationFrame where
  "zero_frame = \<lparr> ampl10000th = 0, phase10000th = 0, offset10000th = 0 \<rparr>"

definition zero_state :: AngleCompensator where
  "zero_state = \<lparr> amplCorr = 0, phaseCorrInDeg = 0, offsetCorrInDeg = 0,
                  phaseCorrInRad = 0, offsetCorrInRad = 0 \<rparr>"

subsection \<open>Reference notions for the decoder\<close>

text \<open>
  The definitions of this subsection are not part of the source. They say what a numeric
  token is and which integer it denotes, in terms of digits and their values only, and what
  narrowing to a signed field means.
\<close>

text \<open>The hexadecimal dump of a byte sequence, two digits per byte.\<close>

definition hex_dump :: "byte list \<Rightarrow> string" where
  "hex_dump bs = concat (map sprintf_02X bs)"

text \<open>A token that starts with \<^verbatim>\<open>+\<close> or \<^verbatim>\<open>-\<close>.\<close>

definition sign_prefixed :: "string \<Rightarrow> bool" where
  "sign_prefixed tok = (case tok of [] \<Rightarrow> False | c # _ \<Rightarrow> c = CHR ''+'' \<or> c = CHR ''-'')"

text \<open>A signed decimal integer: a sign and at least one decimal digit, nothing else.\<close>

definition dec_literal :: "string \<Rightarrow> bool" where
  "dec_literal tok =
     (case tok of
        [] \<Rightarrow> False
      | c # ds \<Rightarrow> (c = CHR ''+'' \<or> c = CHR ''-'') \<and> ds \<noteq> [] \<and> list_all (is_digit 10) ds)"

text \<open>An unsigned hexadecimal integer: at least one hexadecimal digit, nothing else.\<close>

definition hex_literal :: "string \<Rightarrow> bool" where
  "hex_literal tok \<longleftrightarrow> tok \<noteq> [] \<and> list_all (is_digit 16) tok"

text \<open>The integer that a token denotes under the sign-prefix rule.\<close>

definition literal_value :: "string \<Rightarrow> int" where
  "literal_value tok =
     (case tok of
        [] \<Rightarrow> 0
      | c # ds \<Rightarrow> if c = CHR ''-'' then - int (digits_value 10 ds)
                  else if c = CHR ''+'' then int (digits_value 10 ds)
                  else int (digits_value 16 tok))"

text \<open>
  A well-formed value token is a signed decimal integer that a \<^verbatim>\<open>long\<close> holds, or an
  unsigned hexadecimal integer that an \<^verbatim>\<open>unsigned long\<close> holds.
\<close>

definition well_formed_value :: "string \<Rightarrow> bool" where
  "well_formed_value tok \<longleftrightarrow>
     (dec_literal tok \<and> LONG_MIN \<le> literal_value tok \<and> literal_value tok \<le> LONG_MAX)
     \<or> (hex_literal tok \<and> literal_value tok \<le> int ULONG_MAX)"

text \<open>
  Masking an integer to its low \<open>w\<close> bits and reading those bits as a signed number in
  two's complement.
\<close>

definition twos_complement :: "nat \<Rightarrow> int \<Rightarrow> int" where
  "twos_complement w v = (let m = v mod 2 ^ w in if m < 2 ^ (w - 1) then m else m - 2 ^ w)"

text \<open>
  A token in which a hexadecimal digit stands where \<^verbatim>\<open>strtoul\<close> looks for the first one:
  after white space and an optional sign.
\<close>

definition hex_start :: "string \<Rightarrow> bool" where
  "hex_start tok =
     (case snd (take_sign (dropWhile isspace tok)) of
        [] \<Rightarrow> False
      | c # _ \<Rightarrow> is_digit 16 c)"

text \<open>The terms of the series of the arc tangent.\<close>

definition arctan_term :: "real \<Rightarrow> nat \<Rightarrow> real" where
  "arctan_term x n = 1 / real (n * 2 + 1) * x ^ (n * 2 + 1)"

text \<open>
  Two calibrations that the decoder produces: the one of the decimal reply of
  \<^verbatim>\<open>testbed\<close>, and one with amplitude 1 and no phase or offset.
\<close>

definition testbed_state :: AngleCompensator where
  "testbed_state
     = snd (parseAsciiReply zero_frame ''sRA MCAngleCompSin +1893 -210503 -245'' zero_state)"

definition unit_state :: AngleCompensator where
  "unit_state = snd (parseAsciiReply zero_frame ''sRA MCAngleCompSin +10000 +0 +0'' zero_state)"

section \<open>Auxiliary facts\<close>

lemmas parser_defs = parse_frame_def parse_value_def store_frame_def M_PI_def stoul_def
  sscanf_ld_def take_sign_def skip_0x_def isspace_def is_digit_def digit_val_def
  digits_value_def ULONG_MAX_def LONG_MAX_def LONG_MIN_def

subsection \<open>Bounds on \<open>\<pi>\<close> from Machin's formula\<close>

lemma arctan_term_nonneg: "0 \<le> x \<Longrightarrow> 0 \<le> arctan_term x n"
  by (simp add: arctan_term_def)

lemma arctan_term_decreasing:
  assumes "0 \<le> x" "x \<le> 1"
  shows "arctan_term x (Suc n) \<le> arctan_term x n"
proof -
  have p: "x ^ (Suc n * 2 + 1) \<le> x ^ (n * 2 + 1)"
    using assms by (intro power_decreasing) auto
  have q: "1 / real (Suc n * 2 + 1) \<le> 1 / real (n * 2 + 1)"
    by (simp add: field_simps)
  have "1 / real (Suc n * 2 + 1) * x ^ (Suc n * 2 + 1) \<le> 1 / real (n * 2 + 1) * x ^ (n * 2 + 1)"
    using p q assms by (intro mult_mono) auto
  then show ?thesis by (simp only: arctan_term_def)
qed

lemma arctan_partial_sums:
  assumes "0 \<le> x" "x \<le> 1"
  shows "(\<Sum>i<2*n. (-1)^i * arctan_term x i) \<le> arctan x"
    and "arctan x \<le> (\<Sum>i<2*n+1. (-1)^i * arctan_term x i)"
proof -
  have ax: "\<bar>x\<bar> \<le> 1" using assms by simp
  have z: "arctan_term x \<longlonglongrightarrow> 0"
    using zeroseq_arctan_series [OF ax] by (simp add: arctan_term_def [abs_def])
  have s: "arctan x = (\<Sum>k. (-1)^k * arctan_term x k)"
    using arctan_series [OF ax] by (simp add: arctan_term_def)
  note L = summable_Leibniz' [OF z arctan_term_nonneg [OF assms(1)] arctan_term_decreasing [OF assms]]
  show "(\<Sum>i<2*n. (-1)^i * arctan_term x i) \<le> arctan x"
    unfolding s by (rule L(2))
  show "arctan x \<le> (\<Sum>i<2*n+1. (-1)^i * arctan_term x i)"
    unfolding s by (rule L(4))
qed

lemma below9: "{..<9::nat} = {0,1,2,3,4,5,6,7,8}" by auto
lemma below8: "{..<8::nat} = {0,1,2,3,4,5,6,7}" by auto
lemma below3: "{..<3::nat} = {0,1,2}" by auto
lemma below2: "{..<2::nat} = {0,1}" by auto

lemma pi_upper: "pi < 3.1415926536"
proof -
  have u: "arctan (1/5) \<le> (\<Sum>i<9. (-1)^i * arctan_term (1/5) i)"
    using arctan_partial_sums(2) [of "1/5" 4] by simp
  have l: "(\<Sum>i<2. (-1)^i * arctan_term (1/239) i) \<le> arctan (1/239)"
    using arctan_partial_sums(1) [of "1/239" 1] by simp
  have "pi / 4 \<le> 4 * (\<Sum>i<9. (-1)^i * arctan_term (1/5) i)
                  - (\<Sum>i<2. (-1)^i * arctan_term (1/239) i)"
    using u l machin by linarith
  also have "\<dots> < 3.1415926536 / 4"
    unfolding below9 below2 by (simp add: arctan_term_def power_divide)
  finally show ?thesis by simp
qed

lemma pi_lower: "3.14159265358 < pi"
proof -
  have l: "(\<Sum>i<8. (-1)^i * arctan_term (1/5) i) \<le> arctan (1/5)"
    using arctan_partial_sums(1) [of "1/5" 4] by simp
  have u: "arctan (1/239) \<le> (\<Sum>i<3. (-1)^i * arctan_term (1/239) i)"
    using arctan_partial_sums(2) [of "1/239" 1] by simp
  have "3.14159265358 / 4 < 4 * (\<Sum>i<8. (-1)^i * arctan_term (1/5) i)
                  - (\<Sum>i<3. (-1)^i * arctan_term (1/239) i)"
    unfolding below8 below3 by (simp add: arctan_term_def power_divide)
  also have "\<dots> \<le> pi / 4"
    using u l machin by linarith
  finally show ?thesis by simp
qed

text \<open>The literal of the source against \<open>\<pi>/180\<close>.\<close>

lemma deg2radFactor_above: "pi / 180 < (0.01745329252 :: real)"
  using pi_upper by simp

lemma deg2radFactor_near: "(0.01745329252 :: real) - pi / 180 < 12 / 10 ^ 14"
  using pi_lower by simp

lemma deg2radFactor_abs: "\<bar>(0.01745329252 :: real) - pi / 180\<bar> \<le> 12 / 10 ^ 14"
  using deg2radFactor_above deg2radFactor_near by linarith

lemma sin_lipschitz: "\<bar>sin x - sin y\<bar> \<le> \<bar>x - y\<bar>" for x y :: real
proof -
  have "\<bar>sin x - sin y\<bar> = 2 * \<bar>sin ((x - y) / 2)\<bar> * \<bar>cos ((x + y) / 2)\<bar>"
    by (simp add: sin_diff_sin abs_mult)
  also have "\<dots> \<le> 2 * \<bar>(x - y) / 2\<bar> * 1"
    by (intro mult_mono mult_nonneg_nonneg abs_sin_x_le_abs_x) auto
  finally show ?thesis by simp
qed

subsection \<open>Tokens\<close>

lemma getline_loop_count:
  "length (getline_loop token s) \<le> count_list s (CHR '' '') + 1"
  by (induction s arbitrary: token) auto

lemma count_list_takeWhile: "count_list (takeWhile P s) x \<le> count_list s x"
proof (induction s)
  case Nil
  then show ?case by simp
next
  case (Cons a s)
  then show ?case by (cases "P a") simp_all
qed

subsection \<open>The conversion loop\<close>

lemma convert_loop_copy:
  "i + int (length pre) \<le> offset \<Longrightarrow>
   convert_loop offset i relCnt (pre @ rest)
     = map (\<lambda>b. char_of (unat b)) pre @ convert_loop offset (i + int (length pre)) relCnt rest"
proof (induction pre arbitrary: i)
  case Nil
  then show ?case by simp
next
  case (Cons b pre)
  from Cons.prems have "i < offset" "(i + 1) + int (length pre) \<le> offset" by auto
  with Cons.IH [of "i + 1"] show ?case by (simp add: add.assoc)
qed

lemma convert_loop_four:
  assumes "offset \<le> i" "length xs = 4" "relCnt = 0 \<or> relCnt = 4 \<or> relCnt = 8"
  shows "convert_loop offset i relCnt (xs @ rest)
     = hex_dump xs @ (if relCnt < 8 then [CHR '' ''] else [])
       @ convert_loop offset (i + 4) (relCnt + 4) rest"
proof -
  from assms(2) obtain a b c d where xs: "xs = [a, b, c, d]"
    by (auto simp: length_Suc_conv numeral_eq_Suc)
  from assms(1,3) show ?thesis
    unfolding xs by (auto simp: hex_dump_def add.commute)
qed

lemma convert_loop_tail:
  assumes "offset \<le> i" "length tl12 = 12"
  shows "convert_loop offset i 0 tl12
     = hex_dump (take 4 tl12) @ [CHR '' ''] @ hex_dump (take 4 (drop 4 tl12)) @ [CHR '' '']
       @ hex_dump (drop 8 tl12)"
proof -
  let ?a = "take 4 tl12" and ?b = "take 4 (drop 4 tl12)" and ?c = "drop 8 tl12"
  have split: "tl12 = ?a @ ?b @ ?c @ []"
    by (simp add: take_add [symmetric] drop_take) (metis append_take_drop_id drop_drop add.commute numeral_Bit0 take_drop)
  have la: "length ?a = 4" and lb: "length ?b = 4" and lc: "length ?c = 4"
    using assms(2) by auto
  have "convert_loop offset i 0 (?a @ ?b @ ?c @ [])
     = hex_dump ?a @ [CHR '' ''] @ hex_dump ?b @ [CHR '' ''] @ hex_dump ?c"
    using assms(1)
    by (simp add: convert_loop_four [OF _ la] convert_loop_four [OF _ lb]
        convert_loop_four [OF _ lc] del: append_Nil2 append.right_neutral)
  with split show ?thesis by metis
qed

lemma hex_dump_length: "length (hex_dump bs) = 2 * length bs"
  by (induction bs) (auto simp: hex_dump_def sprintf_02X_def)

subsection \<open>Hexadecimal digits contain no space\<close>

lemma hex_digit_not_space: "hex_digit n \<noteq> CHR '' ''"
proof -
  have "hex_digit n \<in> set ''0123456789ABCDEF''"
    unfolding hex_digit_def by (rule nth_mem) simp
  then show ?thesis by auto
qed

lemma hex_digit_upper: "hex_digit k \<in> set ''0123456789ABCDEF''"
  unfolding hex_digit_def by (rule nth_mem) simp

lemma below16:
  "k < 16 \<Longrightarrow> k \<in> {0, 1, 2, 3, 4, 5, 6, 7, 8, 9, 10, 11, 12, 13, 14, 15 :: nat}"
  by simp arith

lemma digit_val_hex_digit: "k < 16 \<Longrightarrow> digit_val (hex_digit k) = Some k"
  by (drule below16) (auto simp: hex_digit_def digit_val_def)

lemma sprintf_02X_upper: "set (sprintf_02X b) \<subseteq> set ''0123456789ABCDEF''"
  using hex_digit_upper [of "unat b div 16"] hex_digit_upper [of "unat b mod 16"]
  by (simp add: sprintf_02X_def)

lemma sprintf_02X_value: "digits_value 16 (sprintf_02X b) = unat b"
proof -
  have "unat b < 256"
    using unsigned_less [of b] by simp
  then have "unat b div 16 < 16" "unat b mod 16 < 16"
    by auto
  then show ?thesis
    by (simp add: sprintf_02X_def digits_value_def digit_val_hex_digit)
qed

lemma sprintf_02X_no_space: "filter (\<lambda>c. c \<noteq> CHR '' '') (sprintf_02X b) = sprintf_02X b"
  by (simp add: sprintf_02X_def hex_digit_not_space)

lemma sprintf_02X_count: "count_list (sprintf_02X b) (CHR '' '') = 0"
  by (simp add: sprintf_02X_def hex_digit_not_space)

lemma convert_loop_filter:
  "offset \<le> i \<Longrightarrow>
   filter (\<lambda>c. c \<noteq> CHR '' '') (convert_loop offset i relCnt bs) = hex_dump bs"
  by (induction bs arbitrary: i relCnt) (auto simp: hex_dump_def sprintf_02X_no_space)

lemma convert_loop_spaces:
  "offset \<le> i \<Longrightarrow> 0 \<le> relCnt \<Longrightarrow>
   count_list (convert_loop offset i relCnt bs) (CHR '' '')
     \<le> (if relCnt < 4 then 2 else if relCnt < 8 then 1 else 0)"
proof (induction bs arbitrary: i relCnt)
  case Nil
  then show ?case by simp
next
  case (Cons b bs)
  have ih: "count_list (convert_loop offset (i + 1) (relCnt + 1) bs) (CHR '' '')
     \<le> (if relCnt + 1 < 4 then 2 else if relCnt + 1 < 8 then 1 else 0)"
    using Cons.prems by (intro Cons.IH) auto
  show ?case
  proof (cases "relCnt + 1 < 12 \<and> (relCnt + 1) mod 4 = 0")
    case True
    with Cons.prems have "relCnt = 3 \<or> relCnt = 7" by presburger
    with ih Cons.prems show ?thesis
      by (auto simp: sprintf_02X_count)
  next
    case False
    with ih Cons.prems show ?thesis
      by (auto simp: sprintf_02X_count split: if_splits)
  qed
qed

subsection \<open>Two's complement\<close>

lemma signed_take_bit_twos_complement:
  "signed_take_bit n v = twos_complement (Suc n) v" for v :: int
proof -
  have m: "v mod 2 ^ Suc n = 2 ^ n * of_bool (bit v n) + v mod 2 ^ n"
    using take_bit_Suc_from_most [of n v] by (simp add: take_bit_eq_mod)
  have t: "0 \<le> v mod 2 ^ n" "v mod 2 ^ n < 2 ^ n"
    by simp_all
  have s: "signed_take_bit n v = v mod 2 ^ Suc n - 2 ^ Suc n * of_bool (bit v n)"
    by (simp add: signed_take_bit_eq_take_bit_minus take_bit_eq_mod)
  show ?thesis
  proof (cases "bit v n")
    case True
    with m have "v mod 2 ^ Suc n = 2 ^ n + v mod 2 ^ n" by simp
    with t True show ?thesis
      unfolding s twos_complement_def Let_def by (simp add: not_less)
  next
    case False
    with m have "v mod 2 ^ Suc n = v mod 2 ^ n" by simp
    with t False show ?thesis
      unfolding s twos_complement_def Let_def by simp
  qed
qed

lemma narrow16:
  "sint (ucast (0xFFFF AND (word_of_int v :: ulong)) :: 16 word) = twos_complement 16 v"
proof -
  have e: "(0xFFFF :: ulong) = mask 16"
    by (simp add: mask_eq_exp_minus_1)
  have "(ucast (mask 16 AND (word_of_int v :: ulong)) :: 16 word) = word_of_int v"
    by (rule bit_word_eqI) (auto simp: bit_simps)
  then show ?thesis
    unfolding e using signed_take_bit_twos_complement [of 15 v] by (simp add: sint_sbintrunc')
qed

lemma narrow32:
  "sint (ucast (0xFFFFFFFF AND (word_of_int v :: ulong)) :: 32 word) = twos_complement 32 v"
proof -
  have e: "(0xFFFFFFFF :: ulong) = mask 32"
    by (simp add: mask_eq_exp_minus_1)
  have "(ucast (mask 32 AND (word_of_int v :: ulong)) :: 32 word) = word_of_int v"
    by (rule bit_word_eqI) (auto simp: bit_simps)
  then show ?thesis
    unfolding e using signed_take_bit_twos_complement [of 31 v] by (simp add: sint_sbintrunc')
qed

subsection \<open>Digits\<close>

lemma is_digit_not_space: "is_digit b c \<Longrightarrow> \<not> isspace c"
  by (auto simp: is_digit_def digit_val_def isspace_def Let_def split: if_splits)

lemma is_digit_not_sign: "is_digit b c \<Longrightarrow> c \<noteq> CHR ''+'' \<and> c \<noteq> CHR ''-''"
  by (auto simp: is_digit_def digit_val_def Let_def split: if_splits)

lemma is_digit_not_x: "is_digit b c \<Longrightarrow> c \<noteq> CHR ''x'' \<and> c \<noteq> CHR ''X''"
  by (auto simp: is_digit_def digit_val_def Let_def split: if_splits)

lemma takeWhile_all: "list_all P xs \<Longrightarrow> takeWhile P xs = xs"
  by (induction xs) auto

lemma skip_0x_digits: "list_all (is_digit 16) s \<Longrightarrow> skip_0x 16 s = s"
  by (auto simp: skip_0x_def dest: is_digit_not_x split: list.splits)

lemma parse_value_hex:
  assumes "hex_literal tok" "literal_value tok \<le> int ULONG_MAX"
  shows "parse_value tok = Inr (word_of_int (literal_value tok))"
proof -
  from assms(1) obtain c cs where tok: "tok = c # cs" and c: "is_digit 16 c"
    and all: "list_all (is_digit 16) tok"
    by (cases tok) (auto simp: hex_literal_def)
  from c have ns: "\<not> isspace c" and sg: "c \<noteq> CHR ''+''" "c \<noteq> CHR ''-''"
    using is_digit_not_space is_digit_not_sign by blast+
  have v: "literal_value tok = int (digits_value 16 tok)"
    using sg by (simp add: literal_value_def tok)
  have ch: "(case tok of [] \<Rightarrow> CHR 0x00 | c # _ \<Rightarrow> c) = c"
    by (simp add: tok)
  have "stoul tok 16 = Inr (of_nat (digits_value 16 tok))"
    using ns sg assms(2) all unfolding v
    by (simp add: stoul_def take_sign_def skip_0x_digits takeWhile_all tok)
  then show ?thesis
    using sg by (simp add: parse_value_def ch v)
qed

lemma parse_value_dec:
  assumes "dec_literal tok" "LONG_MIN \<le> literal_value tok" "literal_value tok \<le> LONG_MAX"
  shows "parse_value tok = Inr (word_of_int (literal_value tok))"
proof -
  from assms(1) obtain c ds where tok: "tok = c # ds" and c: "c = CHR ''+'' \<or> c = CHR ''-''"
    and ds: "ds \<noteq> []" "list_all (is_digit 10) ds"
    by (cases tok) (auto simp: dec_literal_def)
  from c have ns: "\<not> isspace c"
    by (auto simp: isspace_def)
  have "sscanf_ld tok = Some (word_of_int (literal_value tok))"
    using c ns ds assms(2,3)
    by (auto simp: sscanf_ld_def take_sign_def takeWhile_all tok literal_value_def)
  then show ?thesis
    using c by (auto simp: parse_value_def tok)
qed

lemma parse_value_well_formed:
  "well_formed_value tok \<Longrightarrow> parse_value tok = Inr (word_of_int (literal_value tok))"
  unfolding well_formed_value_def using parse_value_hex parse_value_dec by blast

subsection \<open>Tokens that are no numbers\<close>

lemma is_digit_zero: "is_digit 16 CHR ''0''"
  by (simp add: is_digit_def digit_val_def)

lemma stoul_invalid: "\<not> hex_start tok \<Longrightarrow> stoul tok 16 = Inl invalid_argument"
  by (auto simp: hex_start_def stoul_def skip_0x_def is_digit_zero split: prod.splits list.splits)

lemma parse_value_invalid:
  assumes "\<not> sign_prefixed tok" "\<not> hex_start tok"
  shows "parse_value tok = Inl invalid_argument"
  using assms stoul_invalid [of tok]
  by (auto simp: parse_value_def sign_prefixed_def split: list.splits)

lemma parse_value_signed: "sign_prefixed tok \<Longrightarrow> \<exists>v. parse_value tok = Inr v"
  by (auto simp: parse_value_def sign_prefixed_def split: list.splits)

subsection \<open>The calibrations and frames of the testbed\<close>

lemma unit_state_fields:
  "unit_state = \<lparr> amplCorr = 1, phaseCorrInDeg = 0, offsetCorrInDeg = 0,
                  phaseCorrInRad = 0, offsetCorrInRad = 0 \<rparr>"
  by (simp add: unit_state_def parseAsciiReply_def zero_state_def parser_defs)

lemma testbed_state_fields:
  "testbed_state = \<lparr> amplCorr = 1893 / 10000, phaseCorrInDeg = - 210503 / 10000,
      offsetCorrInDeg = - 245 / 10000, phaseCorrInRad = - 210503 / 10000 / 180 * pi,
      offsetCorrInRad = - 245 / 10000 / 180 * pi \<rparr>"
  by (simp add: testbed_state_def parseAsciiReply_def zero_state_def parser_defs)

lemma testbed_stmp:
  "reply_stmp True (to_bytes ''sRA MCAngleCompSin '' @ dataArr)
     = ''sRA MCAngleCompSin 00000765 FFFCC9B9 FFFFFF0B''"
  by (simp add: reply_stmp_def to_bytes_def dataArr_def sprintf_02X_def hex_digit_def
      char_of_eq_iff)

lemma dataArr_stmp: "reply_stmp True dataArr = ''00000765 FFFCC9B9 FFFFFF0B''"
  by (simp add: reply_stmp_def dataArr_def sprintf_02X_def hex_digit_def)

section \<open>The claims\<close>

subsection \<open>C1: \<^verbatim>\<open>parseReply\<close> in ASCII mode\<close>

text \<open>
  C1 says that \<^verbatim>\<open>parseReply\<close> with \<open>isBinary = false\<close> hands the payload text to
  \<^verbatim>\<open>parseAsciiReply\<close>. The source fills \<^verbatim>\<open>stmp\<close> only in the binary branch, so in
  ASCII mode \<^verbatim>\<open>parseAsciiReply\<close> receives the empty string. For the ASCII reply that
  \<^verbatim>\<open>testbed\<close> passes with \<open>isBinary = false\<close>, \<^verbatim>\<open>parseReply\<close> stores whatever the
  unassigned locals hold, while \<^verbatim>\<open>parseAsciiReply\<close> on the same text stores the decoded
  values \<open>0x0765\<close>, \<open>0xFFFCC9B9\<close>, \<open>0xFF0B\<close>.
\<close>

theorem parseReply_ascii_ignores_payload:
  "parseReply uninit False (to_bytes ''sRA MCAngleCompSin 765 FFFCC9B9 FFFFFF0B'') ac
     = (Inr 0, store_frame uninit ac)
   \<and> parseAsciiReply uninit ''sRA MCAngleCompSin 765 FFFCC9B9 FFFFFF0B'' ac
     = (Inr 0, store_frame \<lparr> ampl10000th = 0x0765, phase10000th = 0xFFFCC9B9,
                              offset10000th = 0xFF0B \<rparr> ac)"
  by (simp add: parseReply_def reply_stmp_def c_str_def parseAsciiReply_def parse_frame_def
      parse_value_def stoul_def take_sign_def skip_0x_def isspace_def is_digit_def digit_val_def
      digits_value_def ULONG_MAX_def)

subsection \<open>C2: compensation in radians\<close>

text \<open>
  C2, amended: \<^verbatim>\<open>compensateAngleInRad\<close> returns
  \<open>angleInRad + 0.01745329252 \<cdot> amplCorr \<cdot> sin (angleInRad + phaseCorrInRad) + offsetCorrInRad\<close>.
  The factor is the decimal literal of the source, not \<open>\<pi>/180\<close>; the result differs from
  the formula with \<open>\<pi>/180\<close> by at most \<open>1.2 \<cdot> 10\<^sup>-\<^sup>1\<^sup>3 \<cdot> |amplCorr|\<close>.
\<close>

theorem compensateAngleInRad_formula:
  "compensateAngleInRad ac angleInRad
     = angleInRad + 0.01745329252 * amplCorr ac * sin (angleInRad + phaseCorrInRad ac)
       + offsetCorrInRad ac
   \<and> \<bar>compensateAngleInRad ac angleInRad
       - (angleInRad + (pi / 180) * amplCorr ac * sin (angleInRad + phaseCorrInRad ac)
          + offsetCorrInRad ac)\<bar>
     \<le> 12 / 10 ^ 14 * \<bar>amplCorr ac\<bar>"
proof -
  let ?s = "sin (angleInRad + phaseCorrInRad ac)"
  have "compensateAngleInRad ac angleInRad
       - (angleInRad + (pi / 180) * amplCorr ac * ?s + offsetCorrInRad ac)
      = (0.01745329252 - pi / 180) * (amplCorr ac * ?s)"
    by (simp add: compensateAngleInRad_def algebra_simps)
  moreover have "\<bar>(0.01745329252 - pi / 180) * (amplCorr ac * ?s)\<bar>
      \<le> 12 / 10 ^ 14 * (\<bar>amplCorr ac\<bar> * 1)"
    unfolding abs_mult [of "0.01745329252 - pi / 180"] abs_mult [of "amplCorr ac"]
    by (intro mult_mono deg2radFactor_abs mult_nonneg_nonneg) auto
  ultimately show ?thesis
    by (simp add: compensateAngleInRad_def)
qed

text \<open>
  C2 as stated, with the factor \<open>\<pi>/180\<close>, fails for the calibration of amplitude 1 at the
  angle 1 rad.
\<close>

theorem compensateAngleInRad_pi_counterexample:
  "compensateAngleInRad unit_state 1
     \<noteq> 1 + (pi / 180) * amplCorr unit_state * sin (1 + phaseCorrInRad unit_state)
         + offsetCorrInRad unit_state"
proof -
  have "0 < sin (1::real)"
    using pi_ge_two by (intro sin_gt_zero) auto
  then show ?thesis
    using deg2radFactor_above by (simp add: compensateAngleInRad_def unit_state_fields)
qed

subsection \<open>C3: compensation in degrees\<close>

text \<open>
  C3, amended: \<^verbatim>\<open>compensateAngleInDeg\<close> returns
  \<open>angleInDeg + amplCorr \<cdot> sin (0.01745329252 \<cdot> angleInDeg + 0.01745329252 \<cdot> phaseCorrInDeg)
  + offsetCorrInDeg\<close>, with the amplitude unscaled. The factor is the decimal literal of the
  source, not \<open>\<pi>/180\<close>; the result differs from the formula with \<open>\<pi>/180\<close> by at most
  \<open>1.2 \<cdot> 10\<^sup>-\<^sup>1\<^sup>3 \<cdot> |amplCorr| \<cdot> |angleInDeg + phaseCorrInDeg|\<close>.
\<close>

theorem compensateAngleInDeg_formula:
  "compensateAngleInDeg ac angleInDeg
     = angleInDeg
       + amplCorr ac * sin (0.01745329252 * angleInDeg + 0.01745329252 * phaseCorrInDeg ac)
       + offsetCorrInDeg ac
   \<and> \<bar>compensateAngleInDeg ac angleInDeg
       - (angleInDeg
          + amplCorr ac * sin ((pi / 180) * angleInDeg + (pi / 180) * phaseCorrInDeg ac)
          + offsetCorrInDeg ac)\<bar>
     \<le> 12 / 10 ^ 14 * \<bar>amplCorr ac\<bar> * \<bar>angleInDeg + phaseCorrInDeg ac\<bar>"
proof -
  let ?x = "0.01745329252 * angleInDeg + 0.01745329252 * phaseCorrInDeg ac"
  let ?y = "(pi / 180) * angleInDeg + (pi / 180) * phaseCorrInDeg ac"
  have d: "?x - ?y = (0.01745329252 - pi / 180) * (angleInDeg + phaseCorrInDeg ac)"
    by (simp add: algebra_simps)
  have "\<bar>sin ?x - sin ?y\<bar> \<le> \<bar>?x - ?y\<bar>"
    by (rule sin_lipschitz)
  also have "\<dots> = \<bar>0.01745329252 - pi / 180\<bar> * \<bar>angleInDeg + phaseCorrInDeg ac\<bar>"
    unfolding d by (rule abs_mult)
  also have "\<dots> \<le> 12 / 10 ^ 14 * \<bar>angleInDeg + phaseCorrInDeg ac\<bar>"
    by (intro mult_right_mono deg2radFactor_abs) auto
  finally have s: "\<bar>sin ?x - sin ?y\<bar> \<le> 12 / 10 ^ 14 * \<bar>angleInDeg + phaseCorrInDeg ac\<bar>" .
  have "compensateAngleInDeg ac angleInDeg
       - (angleInDeg + amplCorr ac * sin ?y + offsetCorrInDeg ac)
      = amplCorr ac * (sin ?x - sin ?y)"
    by (simp add: compensateAngleInDeg_def algebra_simps)
  moreover have "\<bar>amplCorr ac * (sin ?x - sin ?y)\<bar>
      \<le> \<bar>amplCorr ac\<bar> * (12 / 10 ^ 14 * \<bar>angleInDeg + phaseCorrInDeg ac\<bar>)"
    unfolding abs_mult by (intro mult_left_mono s) auto
  ultimately show ?thesis
    by (simp add: compensateAngleInDeg_def mult_ac)
qed

text \<open>
  C3 as stated, with the factor \<open>\<pi>/180\<close>, fails for the calibration of amplitude 1 at the
  angle 1 degree.
\<close>

theorem compensateAngleInDeg_pi_counterexample:
  "compensateAngleInDeg unit_state 1
     \<noteq> 1 + amplCorr unit_state * sin ((pi / 180) * 1 + (pi / 180) * phaseCorrInDeg unit_state)
         + offsetCorrInDeg unit_state"
proof -
  have "sin (pi / 180) < sin (0.01745329252 :: real)"
    using deg2radFactor_above pi_ge_two by (intro sin_monotone_2pi) auto
  then show ?thesis
    by (simp add: compensateAngleInDeg_def unit_state_fields)
qed

subsection \<open>C4: a reply without five tokens\<close>

text \<open>
  C4, amended: for every reply text that does not split at single spaces into exactly five
  tokens, \<^verbatim>\<open>parseAsciiReply\<close> reports no error: it returns the code 0, the code that it
  returns for a decoded frame.
\<close>

theorem parseAsciiReply_malformed_returns_zero:
  "length (getline_loop [] replyStr) \<noteq> 5 \<Longrightarrow>
   fst (parseAsciiReply uninit replyStr ac) = Inr 0
   \<and> fst (parseAsciiReply uninit replyStr ac)
     = fst (parseAsciiReply uninit ''sRA MCAngleCompSin 765 FFFCC9B9 FFFFFF0B'' ac)"
  by (simp add: parseAsciiReply_def parser_defs)

theorem parseAsciiReply_malformed_returns_zero_witness:
  "length (getline_loop [] ''sRA MCAngleCompSin 1 2'') \<noteq> 5
   \<and> fst (parseAsciiReply zero_frame ''sRA MCAngleCompSin 1 2'' zero_state) = Inr 0"
proof -
  have "length (getline_loop [] ''sRA MCAngleCompSin 1 2'') \<noteq> 5"
    by simp
  from this parseAsciiReply_malformed_returns_zero [OF this, of zero_frame zero_state]
  show ?thesis by simp
qed

text \<open>
  C4 as stated fails for the four-token frame \<^verbatim>\<open>sRA MCAngleCompSin 1 2\<close>: the call returns
  0, the code that the decoded decimal reply of the testbed returns too.
\<close>

theorem parseAsciiReply_malformed_counterexample:
  "getline_loop [] ''sRA MCAngleCompSin 1 2'' = [''sRA'', ''MCAngleCompSin'', ''1'', ''2'']
   \<and> fst (parseAsciiReply zero_frame ''sRA MCAngleCompSin 1 2'' zero_state) = Inr 0
   \<and> fst (parseAsciiReply zero_frame ''sRA MCAngleCompSin +1893 -210503 -245'' zero_state)
       = Inr 0"
  by (simp add: parseAsciiReply_def parser_defs)

subsection \<open>C5: decoding the three value tokens\<close>

text \<open>
  C5, amended: for every five-token reply whose three value tokens are each a signed
  decimal integer that a 64-bit \<^verbatim>\<open>long\<close> holds or an unsigned hexadecimal integer that a
  64-bit \<^verbatim>\<open>unsigned long\<close> holds, each value token is read as a signed decimal integer
  when it starts with a sign and as an unsigned hexadecimal integer otherwise, masked to
  16 bits (amplitude), 32 bits (phase) and 16 bits (offset), and the bits are read in two's
  complement; the fields store that number divided by 10000. The hexadecimal token
  \<^verbatim>\<open>FFFE\<close> in a 16-bit field is \<open>-2\<close>.
\<close>

theorem parseAsciiReply_decodes_well_formed:
  assumes "getline_loop [] replyStr = [h0, h1, a, p, off]"
    and "well_formed_value a" "well_formed_value p" "well_formed_value off"
  shows "parseAsciiReply uninit replyStr ac
       = (Inr 0,
          ac\<lparr> amplCorr := real_of_int (twos_complement 16 (literal_value a)) / 10000,
              phaseCorrInDeg := real_of_int (twos_complement 32 (literal_value p)) / 10000,
              offsetCorrInDeg := real_of_int (twos_complement 16 (literal_value off)) / 10000,
              offsetCorrInRad
                := real_of_int (twos_complement 16 (literal_value off)) / 10000 / 180 * pi,
              phaseCorrInRad
                := real_of_int (twos_complement 32 (literal_value p)) / 10000 / 180 * pi \<rparr>)
     \<and> twos_complement 16 (literal_value ''FFFE'') = - 2"
proof -
  have "parse_frame [h0, h1, a, p, off]
      = Inr \<lparr> ampl10000th = ucast (0xFFFF AND (word_of_int (literal_value a) :: ulong)),
              phase10000th = ucast (0xFFFFFFFF AND (word_of_int (literal_value p) :: ulong)),
              offset10000th = ucast (0xFFFF AND (word_of_int (literal_value off) :: ulong)) \<rparr>"
    using assms(2-4) by (simp add: parse_frame_def parse_value_well_formed)
  then have "parseAsciiReply uninit replyStr ac
       = (Inr 0,
          ac\<lparr> amplCorr := real_of_int (twos_complement 16 (literal_value a)) / 10000,
              phaseCorrInDeg := real_of_int (twos_complement 32 (literal_value p)) / 10000,
              offsetCorrInDeg := real_of_int (twos_complement 16 (literal_value off)) / 10000,
              offsetCorrInRad
                := real_of_int (twos_complement 16 (literal_value off)) / 10000 / 180 * pi,
              phaseCorrInRad
                := real_of_int (twos_complement 32 (literal_value p)) / 10000 / 180 * pi \<rparr>)"
    using assms(1)
    by (simp add: parseAsciiReply_def store_frame_def M_PI_def narrow16 narrow32)
  moreover have "twos_complement 16 (literal_value ''FFFE'') = - 2"
    by (simp add: twos_complement_def literal_value_def digits_value_def digit_val_def)
  ultimately show ?thesis by simp
qed

theorem parseAsciiReply_decodes_well_formed_witness:
  "well_formed_value ''FFFE'' \<and> well_formed_value ''-210503'' \<and> well_formed_value ''+1893''
   \<and> parseAsciiReply zero_frame ''sRA MCAngleCompSin FFFE -210503 +1893'' zero_state
     = (Inr 0, \<lparr> amplCorr = - 2 / 10000, phaseCorrInDeg = - 210503 / 10000,
                  offsetCorrInDeg = 1893 / 10000,
                  phaseCorrInRad = - 210503 / 10000 / 180 * pi,
                  offsetCorrInRad = 1893 / 10000 / 180 * pi \<rparr>)"
proof -
  have t: "getline_loop [] ''sRA MCAngleCompSin FFFE -210503 +1893''
      = [''sRA'', ''MCAngleCompSin'', ''FFFE'', ''-210503'', ''+1893'']"
    by simp
  have w: "well_formed_value ''FFFE''" "well_formed_value ''-210503''"
      "well_formed_value ''+1893''"
    by (simp_all add: well_formed_value_def hex_literal_def dec_literal_def literal_value_def
        is_digit_def digit_val_def digits_value_def ULONG_MAX_def LONG_MAX_def LONG_MIN_def)
  from parseAsciiReply_decodes_well_formed [OF t w, of zero_frame zero_state] w
  show ?thesis
    by (simp add: zero_state_def twos_complement_def literal_value_def digits_value_def
        digit_val_def)
qed

text \<open>
  C5 as stated, for value tokens of any size, fails outside that range. The hexadecimal
  token \<^verbatim>\<open>10000000000000000\<close> (2 to the power 64) has the low 16 bits 0, but
  \<^verbatim>\<open>std::stoul\<close> throws \<^verbatim>\<open>std::out_of_range\<close> and nothing is stored. The decimal token
  \<^verbatim>\<open>+9223372036854775808\<close> (2 to the power 63) has the low 16 bits 0 too, but the
  conversion stops at the largest \<^verbatim>\<open>long\<close> and the amplitude becomes \<open>-1/10000\<close>.
\<close>

theorem parseAsciiReply_out_of_range_counterexample:
  "hex_literal ''10000000000000000''
   \<and> twos_complement 16 (literal_value ''10000000000000000'') = 0
   \<and> parseAsciiReply zero_frame ''sRA MCAngleCompSin 10000000000000000 0 0'' testbed_state
     = (Inl out_of_range, testbed_state)
   \<and> dec_literal ''+9223372036854775808''
   \<and> twos_complement 16 (literal_value ''+9223372036854775808'') = 0
   \<and> amplCorr (snd (parseAsciiReply zero_frame ''sRA MCAngleCompSin +9223372036854775808 0 0''
         testbed_state)) = - 1 / 10000"
proof -
  have h: "hex_literal ''10000000000000000''"
      "twos_complement 16 (literal_value ''10000000000000000'') = 0"
    by (simp_all add: hex_literal_def twos_complement_def literal_value_def is_digit_def
        digit_val_def digits_value_def)
  have d: "dec_literal ''+9223372036854775808''"
      "twos_complement 16 (literal_value ''+9223372036854775808'') = 0"
    by (simp_all add: dec_literal_def twos_complement_def literal_value_def is_digit_def
        digit_val_def digits_value_def)
  have t: "parseAsciiReply zero_frame ''sRA MCAngleCompSin 10000000000000000 0 0'' testbed_state
      = (Inl out_of_range, testbed_state)"
    by (simp add: parseAsciiReply_def parser_defs)
  have s: "amplCorr (snd (parseAsciiReply zero_frame
        ''sRA MCAngleCompSin +9223372036854775808 0 0'' testbed_state)) = - 1 / 10000"
    by (simp add: parseAsciiReply_def parser_defs)
  from h d t s show ?thesis by simp
qed

subsection \<open>C6: the binary reply as text\<close>

text \<open>
  C6, amended: for every byte sequence of length \<open>n \<ge> 12\<close>, the binary branch of
  \<^verbatim>\<open>parseReply\<close> copies the bytes 0 to \<open>n - 13\<close> as characters and writes each of the last
  12 bytes as two upper-case hexadecimal digits, with one space after the 4th and one after
  the 8th of these bytes: three groups of 8 hexadecimal characters each. The two digits of
  a byte are upper case and denote the byte.
\<close>

theorem reply_stmp_binary_layout:
  assumes "12 \<le> length replyVec"
  shows "reply_stmp True replyVec
       = map (\<lambda>b. char_of (unat b)) (take (length replyVec - 12) replyVec)
         @ hex_dump (take 4 (drop (length replyVec - 12) replyVec)) @ '' ''
         @ hex_dump (take 4 (drop (length replyVec - 8) replyVec)) @ '' ''
         @ hex_dump (drop (length replyVec - 4) replyVec)
     \<and> length (hex_dump (take 4 (drop (length replyVec - 12) replyVec))) = 8
     \<and> length (hex_dump (take 4 (drop (length replyVec - 8) replyVec))) = 8
     \<and> length (hex_dump (drop (length replyVec - 4) replyVec)) = 8
     \<and> list_all (\<lambda>b. set (sprintf_02X b) \<subseteq> set ''0123456789ABCDEF''
                       \<and> digits_value 16 (sprintf_02X b) = unat b) replyVec"
proof -
  let ?n = "length replyVec"
  let ?pre = "take (?n - 12) replyVec" and ?tl = "drop (?n - 12) replyVec"
  have len: "length ?tl = 12" "int (length ?pre) = int ?n - 12"
    using assms by auto
  have "convert_loop (int ?n - 12) 0 0 (?pre @ ?tl)
      = map (\<lambda>b. char_of (unat b)) ?pre @ convert_loop (int ?n - 12) (int ?n - 12) 0 ?tl"
    using convert_loop_copy [of 0 ?pre "int ?n - 12" 0 ?tl] len(2) by simp
  also have "convert_loop (int ?n - 12) (int ?n - 12) 0 ?tl
      = hex_dump (take 4 ?tl) @ [CHR '' ''] @ hex_dump (take 4 (drop 4 ?tl)) @ [CHR '' '']
        @ hex_dump (drop 8 ?tl)"
    by (rule convert_loop_tail [OF _ len(1)]) simp
  finally have "reply_stmp True replyVec
      = map (\<lambda>b. char_of (unat b)) ?pre
        @ hex_dump (take 4 ?tl) @ [CHR '' ''] @ hex_dump (take 4 (drop 4 ?tl)) @ [CHR '' '']
        @ hex_dump (drop 8 ?tl)"
    by (simp add: reply_stmp_def)
  moreover have "4 + (?n - 12) = ?n - 8" "8 + (?n - 12) = ?n - 4"
    using assms by auto
  moreover have "list_all (\<lambda>b. set (sprintf_02X b) \<subseteq> set ''0123456789ABCDEF''
                       \<and> digits_value 16 (sprintf_02X b) = unat b) replyVec"
    unfolding list_all_iff using sprintf_02X_upper sprintf_02X_value by blast
  ultimately show ?thesis
    using assms by (simp add: hex_dump_length)
qed

theorem reply_stmp_binary_layout_witness:
  "12 \<le> length (to_bytes ''sRA MCAngleCompSin '' @ dataArr)
   \<and> reply_stmp True (to_bytes ''sRA MCAngleCompSin '' @ dataArr)
     = ''sRA MCAngleCompSin 00000765 FFFCC9B9 FFFFFF0B''"
proof -
  have "12 \<le> length (to_bytes ''sRA MCAngleCompSin '' @ dataArr)"
    by (simp add: to_bytes_def dataArr_def)
  from this reply_stmp_binary_layout [OF this] show ?thesis
    by (simp add: to_bytes_def dataArr_def hex_dump_def sprintf_02X_def hex_digit_def
        char_of_eq_iff)
qed

text \<open>
  C6 as stated, with groups of 4, 8 and 4 hexadecimal characters, fails for the 12 data
  bytes of the testbed.
\<close>

theorem reply_stmp_groups_counterexample:
  "reply_stmp True dataArr = ''00000765 FFFCC9B9 FFFFFF0B''
   \<and> map length (getline_loop [] (reply_stmp True dataArr)) = [8, 8, 8]
   \<and> map length (getline_loop [] (reply_stmp True dataArr)) \<noteq> [4, 8, 4]"
  by (simp add: reply_stmp_def dataArr_def sprintf_02X_def hex_digit_def)

subsection \<open>C7: the two frames of the testbed\<close>

text \<open>
  C7, amended: decoding the ASCII reply \<^verbatim>\<open>sRA MCAngleCompSin 765 FFFCC9B9 FFFFFF0B\<close>
  gives the same calibration as decoding, in binary mode, the bytes of the header
  \<^verbatim>\<open>sRA MCAngleCompSin \<close> followed by the 12 data bytes: amplitude 1893, phase -210503 and
  offset -245 ten-thousandths.
\<close>

theorem testbed_binary_matches_ascii:
  "parseReply uninit True (to_bytes ''sRA MCAngleCompSin '' @ dataArr) ac
     = parseAsciiReply uninit ''sRA MCAngleCompSin 765 FFFCC9B9 FFFFFF0B'' ac
   \<and> parseAsciiReply uninit ''sRA MCAngleCompSin 765 FFFCC9B9 FFFFFF0B'' ac
     = (Inr 0, ac\<lparr> amplCorr := 1893 / 10000, phaseCorrInDeg := - 210503 / 10000,
                     offsetCorrInDeg := - 245 / 10000,
                     offsetCorrInRad := - 245 / 10000 / 180 * pi,
                     phaseCorrInRad := - 210503 / 10000 / 180 * pi \<rparr>)"
  by (simp add: parseReply_def testbed_stmp c_str_def parseAsciiReply_def parser_defs)

text \<open>
  C7 as stated, with the 12 data bytes alone as the binary frame, fails: they become three
  tokens, not five, so no value token is parsed; with locals that hold zero the amplitude
  is 0, not 0.1893.
\<close>

theorem bare_dataArr_counterexample:
  "getline_loop [] (c_str (reply_stmp True dataArr)) = [''00000765'', ''FFFCC9B9'', ''FFFFFF0B'']
   \<and> amplCorr (snd (parseReply zero_frame True dataArr zero_state)) = 0
   \<and> amplCorr (snd (parseAsciiReply zero_frame ''sRA MCAngleCompSin 765 FFFCC9B9 FFFFFF0B''
         zero_state)) = 1893 / 10000"
  by (simp add: parseReply_def dataArr_stmp c_str_def parseAsciiReply_def parser_defs
      zero_frame_def zero_state_def)

subsection \<open>C8: fewer than 12 bytes\<close>

text \<open>
  C8, amended: for every byte sequence with fewer than 12 bytes, the binary branch of
  \<^verbatim>\<open>parseReply\<close> reports no error. It writes every byte as two hexadecimal digits (the
  text without its spaces is the hexadecimal dump of the input), which gives at most three
  tokens, and \<^verbatim>\<open>parseReply\<close> returns the code 0.
\<close>

theorem parseReply_short_binary:
  assumes "length replyVec < 12"
  shows "filter (\<lambda>c. c \<noteq> CHR '' '') (reply_stmp True replyVec) = hex_dump replyVec
       \<and> length (getline_loop [] (c_str (reply_stmp True replyVec))) \<le> 3
       \<and> fst (parseReply uninit True replyVec ac) = Inr 0"
proof -
  let ?stmp = "reply_stmp True replyVec"
  have off: "int (length replyVec) - 12 \<le> 0"
    using assms by simp
  have stmp: "?stmp = convert_loop (int (length replyVec) - 12) 0 0 replyVec"
    by (simp add: reply_stmp_def)
  have "count_list (c_str ?stmp) (CHR '' '') \<le> count_list ?stmp (CHR '' '')"
    unfolding c_str_def by (rule count_list_takeWhile)
  also have "\<dots> \<le> 2"
    unfolding stmp using convert_loop_spaces [OF off, of 0 replyVec] by simp
  finally have "length (getline_loop [] (c_str ?stmp)) \<le> 3"
    using getline_loop_count [of "[]" "c_str ?stmp"] by linarith
  moreover from this have "fst (parseReply uninit True replyVec ac) = Inr 0"
    by (simp add: parseReply_def parseAsciiReply_def)
  moreover have "filter (\<lambda>c. c \<noteq> CHR '' '') ?stmp = hex_dump replyVec"
    unfolding stmp by (rule convert_loop_filter [OF off])
  ultimately show ?thesis by simp
qed

theorem parseReply_short_binary_witness:
  "filter (\<lambda>c. c \<noteq> CHR '' '') (reply_stmp True (take 8 dataArr)) = ''00000765FFFCC9B9''
   \<and> length (getline_loop [] (c_str (reply_stmp True (take 8 dataArr)))) \<le> 3
   \<and> fst (parseReply zero_frame True (take 8 dataArr) zero_state) = Inr 0"
proof -
  have "length (take 8 dataArr) < 12"
    by (simp add: dataArr_def)
  from parseReply_short_binary [OF this, of zero_frame zero_state] show ?thesis
    by (simp add: hex_dump_def dataArr_def sprintf_02X_def hex_digit_def)
qed

text \<open>
  C8 as stated fails for the single byte \<open>0x01\<close>: the token string \<^verbatim>\<open>01\<close> is produced
  and the call returns 0.
\<close>

theorem parseReply_short_binary_counterexample:
  "reply_stmp True [0x01] = ''01''
   \<and> fst (parseReply zero_frame True [0x01] zero_state) = Inr 0"
  by (simp add: parseReply_def parseAsciiReply_def reply_stmp_def c_str_def sprintf_02X_def
      hex_digit_def)

subsection \<open>C9: value tokens that are no numbers\<close>

text \<open>
  C9, amended: in a five-token reply, a value token without sign prefix in which no
  hexadecimal digit stands where the number has to start makes \<^verbatim>\<open>parseAsciiReply\<close> throw
  (\<^verbatim>\<open>std::invalid_argument\<close>, or \<^verbatim>\<open>std::out_of_range\<close> from an earlier token) and leaves
  the object unchanged. Tokens with a sign prefix never make it fail: when all three value
  tokens have one, the call returns 0, whatever follows the signs.
\<close>

theorem parseAsciiReply_invalid_literals:
  assumes "getline_loop [] replyStr = cont" "length cont = 5"
  shows "((\<exists>i\<in>{2, 3, 4}. \<not> sign_prefixed (cont ! i) \<and> \<not> hex_start (cont ! i))
            \<longrightarrow> (\<exists>e. parseAsciiReply uninit replyStr ac = (Inl e, ac)))
       \<and> ((\<forall>i\<in>{2, 3, 4}. sign_prefixed (cont ! i))
            \<longrightarrow> fst (parseAsciiReply uninit replyStr ac) = Inr 0)"
proof (intro conjI impI)
  assume "\<exists>i\<in>{2, 3, 4}. \<not> sign_prefixed (cont ! i) \<and> \<not> hex_start (cont ! i)"
  then obtain i where i: "i = 2 \<or> i = 3 \<or> i = 4"
    and n: "\<not> sign_prefixed (cont ! i)" "\<not> hex_start (cont ! i)"
    by auto
  have "parse_value (cont ! i) = Inl invalid_argument"
    using n by (rule parse_value_invalid)
  with i have "\<exists>e. parse_frame cont = Inl e"
    by (auto simp: parse_frame_def split: sum.splits)
  with assms show "\<exists>e. parseAsciiReply uninit replyStr ac = (Inl e, ac)"
    by (auto simp: parseAsciiReply_def)
next
  assume "\<forall>i\<in>{2, 3, 4}. sign_prefixed (cont ! i)"
  then obtain v2 v3 v4 where "parse_value (cont ! 2) = Inr v2"
      "parse_value (cont ! 3) = Inr v3" "parse_value (cont ! 4) = Inr v4"
    using parse_value_signed [of "cont ! 2"] parse_value_signed [of "cont ! 3"]
      parse_value_signed [of "cont ! 4"]
    by auto
  then have "\<exists>fr. parse_frame cont = Inr fr"
    by (simp add: parse_frame_def)
  with assms show "fst (parseAsciiReply uninit replyStr ac) = Inr 0"
    by (auto simp: parseAsciiReply_def)
qed

theorem parseAsciiReply_invalid_literals_witness:
  "\<not> sign_prefixed ''zz'' \<and> \<not> hex_start ''zz''
   \<and> parseAsciiReply zero_frame ''sRA MCAngleCompSin +5 zz 1'' testbed_state
     = (Inl invalid_argument, testbed_state)
   \<and> fst (parseAsciiReply zero_frame ''sRA MCAngleCompSin +x -y +'' testbed_state) = Inr 0"
proof -
  let ?c1 = "[''sRA'', ''MCAngleCompSin'', ''+5'', ''zz'', ''1'']"
  let ?c2 = "[''sRA'', ''MCAngleCompSin'', ''+x'', ''-y'', ''+'']"
  have t1: "getline_loop [] ''sRA MCAngleCompSin +5 zz 1'' = ?c1"
    by simp
  have t2: "getline_loop [] ''sRA MCAngleCompSin +x -y +'' = ?c2"
    by simp
  have n: "\<not> sign_prefixed ''zz''" "\<not> hex_start ''zz''"
    by (simp_all add: sign_prefixed_def hex_start_def take_sign_def isspace_def is_digit_def
        digit_val_def)
  then have h1: "\<exists>i\<in>{2, 3, 4}. \<not> sign_prefixed (?c1 ! i) \<and> \<not> hex_start (?c1 ! i)"
    by simp
  have h2: "\<forall>i\<in>{2, 3, 4}. sign_prefixed (?c2 ! i)"
    by (simp add: sign_prefixed_def)
  have a: "\<exists>e. parseAsciiReply zero_frame ''sRA MCAngleCompSin +5 zz 1'' testbed_state
      = (Inl e, testbed_state)"
    using parseAsciiReply_invalid_literals [OF t1, of zero_frame testbed_state] h1 by auto
  have b: "fst (parseAsciiReply zero_frame ''sRA MCAngleCompSin +x -y +'' testbed_state) = Inr 0"
    using parseAsciiReply_invalid_literals [OF t2, of zero_frame testbed_state] h2 by auto
  have "fst (parseAsciiReply zero_frame ''sRA MCAngleCompSin +5 zz 1'' testbed_state)
      = Inl invalid_argument"
    by (simp add: parseAsciiReply_def parser_defs)
  with a b n show ?thesis by auto
qed

text \<open>
  C9 as stated fails for \<^verbatim>\<open>sRA MCAngleCompSin +x 0 0\<close>, whose first value token has a sign
  and no digit: the call returns 0 and replaces the calibration of the testbed by zeros.
\<close>

theorem parseAsciiReply_invalid_decimal_counterexample:
  "parseAsciiReply zero_frame ''sRA MCAngleCompSin +x 0 0'' testbed_state = (Inr 0, zero_state)
   \<and> amplCorr testbed_state = 1893 / 10000
   \<and> amplCorr zero_state = 0"
  by (simp add: testbed_state_fields parseAsciiReply_def zero_state_def parser_defs)

subsection \<open>C10: the return code\<close>

text \<open>
  C10: whenever \<^verbatim>\<open>parseAsciiReply\<close> or \<^verbatim>\<open>parseReply\<close> returns, it returns 0, whether or
  not the frame had five tokens and whatever the tokens were.
\<close>

theorem retCode_always_zero:
  "(parseAsciiReply uninit replyStr ac = (Inr rc, ac') \<longrightarrow> rc = 0)
   \<and> (parseReply uninit isBinary replyVec ac = (Inr rc', ac'') \<longrightarrow> rc' = 0)"
  by (auto simp: parseAsciiReply_def parseReply_def Let_def split: sum.splits if_splits)

theorem retCode_always_zero_witness:
  "fst (parseAsciiReply zero_frame ''sRA MCAngleCompSin 1 2'' zero_state) = Inr 0
   \<and> fst (parseReply zero_frame True dataArr zero_state) = Inr 0"
proof -
  obtain rc ac' where a: "parseAsciiReply zero_frame ''sRA MCAngleCompSin 1 2'' zero_state
      = (Inr rc, ac')"
    by (simp add: parseAsciiReply_def)
  obtain rc' ac'' where b: "parseReply zero_frame True dataArr zero_state = (Inr rc', ac'')"
    by (simp add: parseReply_def parseAsciiReply_def reply_stmp_def dataArr_def c_str_def
        sprintf_02X_def hex_digit_def)
  from retCode_always_zero [of zero_frame "''sRA MCAngleCompSin 1 2''" zero_state rc ac'
      True dataArr rc' ac''] a b
  show ?thesis by simp
qed

end
